theory Spec2Isabelle
  imports Complex_Main "HOL-Library.Word"
begin

unbundle bit_operations_syntax

section \<open>Chunker: \<open>AudioProcessor\<close> of \<open>conferencing/transcribe.py\<close>\<close>

text \<open>
  Python \<open>bytes\<close> and \<open>bytearray\<close> values are lists of 8-bit words. The accumulator
  owns one growable buffer.
\<close>

type_synonym byte = "8 word"

definition MAX_CHUNK_SIZE :: nat where
  "MAX_CHUNK_SIZE = 25600"

definition PREFERRED_CHUNK_SIZE :: nat where
  "PREFERRED_CHUNK_SIZE = 24576"

record AudioProcessor =
  buffer :: "byte list"

definition AudioProcessor_init :: AudioProcessor where
  "AudioProcessor_init = \<lparr>buffer = []\<rparr>"

text \<open>
  The \<open>while\<close> loop of \<open>add_audio\<close>: as long as the buffer holds at least
  \<open>PREFERRED_CHUNK_SIZE\<close> bytes, its prefix of that size is appended to \<open>chunks\<close> and
  sliced off the buffer. The loop state is the pair of the buffer and the chunks so far.
\<close>

function add_audio_loop :: "byte list \<Rightarrow> byte list list \<Rightarrow> byte list list \<times> byte list" where
  "add_audio_loop buf chunks =
     (if length buf \<ge> PREFERRED_CHUNK_SIZE
      then add_audio_loop (drop PREFERRED_CHUNK_SIZE buf) (chunks @ [take PREFERRED_CHUNK_SIZE buf])
      else (chunks, buf))"
  by pat_completeness auto
termination
proof (relation "measure (\<lambda>(buf, chunks). length buf)")
  show "wf (measure (\<lambda>(buf, chunks). length buf))" by simp
next
  fix buf :: "byte list" and chunks :: "byte list list"
  assume "PREFERRED_CHUNK_SIZE \<le> length buf"
  moreover have "0 < PREFERRED_CHUNK_SIZE" by (simp add: PREFERRED_CHUNK_SIZE_def)
  ultimately show "((drop PREFERRED_CHUNK_SIZE buf, chunks @ [take PREFERRED_CHUNK_SIZE buf]), (buf, chunks))
        \<in> measure (\<lambda>(buf, chunks). length buf)"
    by simp
qed

declare add_audio_loop.simps [simp del]

text \<open>\<open>add_audio\<close> extends the buffer, runs the loop and returns the chunks; the
  second component is the accumulator after the call.\<close>

definition add_audio :: "AudioProcessor \<Rightarrow> byte list \<Rightarrow> byte list list \<times> AudioProcessor" where
  "add_audio self audio_data =
     (let (chunks, buf) = add_audio_loop (buffer self @ audio_data) []
      in (chunks, self\<lparr>buffer := buf\<rparr>))"

text \<open>\<open>get_remaining\<close> returns a copy of the buffer when it is non-empty (an empty
  \<open>bytearray\<close> is falsy) and \<open>None\<close> otherwise. It assigns nothing, so the accumulator
  it hands back is the one it was given.\<close>

definition get_remaining :: "AudioProcessor \<Rightarrow> byte list option \<times> AudioProcessor" where
  "get_remaining self = (if buffer self \<noteq> [] then (Some (buffer self), self) else (None, self))"

text \<open>A sequence of \<open>add_audio\<close> calls on one accumulator: the chunks of all calls in
  emission order, and the accumulator after the last call.\<close>

fun add_audio_calls :: "AudioProcessor \<Rightarrow> byte list list \<Rightarrow> byte list list \<times> AudioProcessor" where
  "add_audio_calls self [] = ([], self)"
| "add_audio_calls self (d # ds) =
     (let (chunks, self') = add_audio self d;
          (rest, self'') = add_audio_calls self' ds
      in (chunks @ rest, self''))"

text \<open>The bytes a caller gets out of an \<open>Optional[bytes]\<close>: none for \<open>None\<close>.\<close>

definition bytes_of :: "byte list option \<Rightarrow> byte list" where
  "bytes_of r = (case r of None \<Rightarrow> [] | Some bs \<Rightarrow> bs)"

text \<open>What one run of the loop emits and what it leaves, as functions of the bytes
  pending when the loop starts.\<close>

definition emitted :: "byte list \<Rightarrow> byte list list" where
  "emitted buf = fst (add_audio_loop buf [])"

definition leftover :: "byte list \<Rightarrow> byte list" where
  "leftover buf = snd (add_audio_loop buf [])"

section \<open>Playback track: \<open>BotAudioTrack\<close> of \<open>conferencing/custom/bot_audio_track.py\<close>\<close>

text \<open>
  Exceptions are values. A function of the source that can raise returns \<open>exn + 'a\<close>
  with \<open>Inl\<close> for the exception; a \<open>try\<close>/\<open>except\<close> is a case distinction on that
  result. The loggers are lists of records (level and the fixed part of the message),
  newest last.
\<close>

datatype exn =
  MediaStreamError | ValueError | TypeError | AttributeError | KeyError | binascii_Error
  | JSONDecodeError | RuntimeError | MemoryError

datatype level = DEBUG | INFO | ERROR

type_synonym log_record = "level \<times> string"

datatype ready_state = Live | Ended

datatype layout = Mono | Stereo

type_synonym sample = "16 word"

text \<open>
  An \<open>av.AudioFrame\<close> in the packed \<open>s16\<close> format has a single plane. For the mono
  layout, the only one this track builds, the plane holds one 16-bit word per sample.
\<close>

record AudioFrame =
  layout :: layout
  plane :: "sample list"
  sample_rate :: nat
  pts :: "nat option"

subsection \<open>The library calls the track makes\<close>

text \<open>
  \<open>av.audio.fifo.AudioFifo\<close> belongs to the PyAV library. The model keeps what the
  track can observe of it: the attributes of the first frame written (the template of
  every frame read back), the buffered samples, and the count of samples read so far,
  from which the library stamps the frames it hands out.
  \<^item> \<open>write\<close> ignores a frame without samples, refuses a frame whose attributes differ
    from the template, and appends the samples otherwise;
  \<^item> \<open>read(n)\<close> (without \<open>partial\<close>) returns \<open>None\<close> unless at least \<open>n\<close> samples are
    buffered, and the first \<open>n\<close> of them otherwise; \<open>read(0)\<close> takes all.
\<close>

record AudioFifo =
  template :: "(layout \<times> nat) option"
  buffered :: "sample list"
  samples_read :: nat

definition AudioFifo_init :: AudioFifo where
  "AudioFifo_init = \<lparr>template = None, buffered = [], samples_read = 0\<rparr>"

definition AudioFifo_write :: "AudioFifo \<Rightarrow> AudioFrame \<Rightarrow> exn + AudioFifo" where
  "AudioFifo_write fifo frame =
     (if plane frame = [] then Inr fifo
      else case template fifo of
             None \<Rightarrow>
               Inr (fifo\<lparr>template := Some (layout frame, sample_rate frame),
                         buffered := buffered fifo @ plane frame\<rparr>)
           | Some t \<Rightarrow>
               if t \<noteq> (layout frame, sample_rate frame) then Inl ValueError
               else Inr (fifo\<lparr>buffered := buffered fifo @ plane frame\<rparr>))"

definition AudioFifo_read :: "AudioFifo \<Rightarrow> nat \<Rightarrow> AudioFrame option \<times> AudioFifo" where
  "AudioFifo_read fifo n =
     (case template fifo of
        None \<Rightarrow> (None, fifo)
      | Some (lay, rate) \<Rightarrow>
          if length (buffered fifo) < 1 then (None, fifo)
          else
            let k = (if n = 0 then length (buffered fifo) else n)
            in if length (buffered fifo) < k then (None, fifo)
               else (Some \<lparr>layout = lay, plane = take k (buffered fifo), sample_rate = rate,
                            pts = Some (samples_read fifo)\<rparr>,
                     fifo\<lparr>buffered := drop k (buffered fifo),
                          samples_read := samples_read fifo + k\<rparr>))"


text \<open>\<open>np.frombuffer(audio_bytes, dtype=np.int16)\<close>: the byte count must be a multiple
  of the element size; the elements are read in little-endian order.\<close>

fun int16_pairs :: "byte list \<Rightarrow> sample list" where
  "int16_pairs (lo # hi # bs) = (ucast lo OR push_bit 8 (ucast hi)) # int16_pairs bs"
| "int16_pairs _ = []"

definition frombuffer_int16 :: "byte list \<Rightarrow> exn + sample list" where
  "frombuffer_int16 bs = (if odd (length bs) then Inl ValueError else Inr (int16_pairs bs))"

text \<open>\<open>array.reshape(rows, -1)\<close>: the element count must be a multiple of the row
  count; the result has that many rows of equal length.\<close>

definition reshape :: "nat \<Rightarrow> sample list \<Rightarrow> exn + sample list list" where
  "reshape rows xs =
     (if rows = 0 \<or> length xs mod rows \<noteq> 0 then Inl ValueError
      else let k = length xs div rows
           in Inr (map (\<lambda>r. take k (drop (r * k) xs)) [0..<rows]))"

text \<open>\<open>AudioFrame.from_ndarray\<close> for the packed format \<open>s16\<close> expects an array of one
  row, which becomes the plane. The frame's sample rate is assigned by the caller.\<close>

definition AudioFrame_from_ndarray :: "sample list list \<Rightarrow> layout \<Rightarrow> exn + AudioFrame" where
  "AudioFrame_from_ndarray array lay =
     (case array of
        [row] \<Rightarrow> Inr \<lparr>layout = lay, plane = row, sample_rate = 0, pts = None\<rparr>
      | _ \<Rightarrow> Inl ValueError)"

subsection \<open>The track\<close>

text \<open>The audio configuration set by \<open>__init__\<close> and never assigned again;
  \<open>frame_samples = int(0.020 * 24000)\<close>.\<close>

definition sample_rate_cfg :: nat where
  "sample_rate_cfg = 24000"

definition channels :: nat where
  "channels = 1"

definition frame_samples :: nat where
  "frame_samples = 480"

text \<open>The fields that change: the ready state inherited from \<open>MediaStreamTrack\<close>,
  \<open>_start\<close> (a reading of the event loop's clock, once taken), \<open>_timestamp\<close>, the FIFO,
  and the records written to the module's logger.\<close>

record BotAudioTrack =
  readyState :: ready_state
  start :: "rat option"
  timestamp :: nat
  audio_fifo :: AudioFifo
  logged :: "log_record list"

definition BotAudioTrack_init :: BotAudioTrack where
  "BotAudioTrack_init =
     \<lparr>readyState = Live, start = None, timestamp = 0, audio_fifo = AudioFifo_init, logged = []\<rparr>"

text \<open>
  The body of the \<open>try\<close> block of \<open>enqueue_audio\<close>. The base64 decoder of the standard
  library is the parameter \<open>b64decode\<close>; each step that can raise ends the block with
  the track untouched, since the FIFO is written last.
\<close>

definition enqueue_audio_try ::
  "(string \<Rightarrow> exn + byte list) \<Rightarrow> BotAudioTrack \<Rightarrow> string \<Rightarrow> exn + BotAudioTrack" where
  "enqueue_audio_try b64decode self base64_audio =
     (case b64decode base64_audio of
        Inl e \<Rightarrow> Inl e
      | Inr audio_bytes \<Rightarrow>
     (case frombuffer_int16 audio_bytes of
        Inl e \<Rightarrow> Inl e
      | Inr audio_array \<Rightarrow>
     (case reshape channels audio_array of
        Inl e \<Rightarrow> Inl e
      | Inr audio_array' \<Rightarrow>
     (case AudioFrame_from_ndarray audio_array' (if channels = 1 then Mono else Stereo) of
        Inl e \<Rightarrow> Inl e
      | Inr frame \<Rightarrow>
     (case AudioFifo_write (audio_fifo self) (frame\<lparr>sample_rate := sample_rate_cfg\<rparr>) of
        Inl e \<Rightarrow> Inl e
      | Inr fifo \<Rightarrow> Inr (self\<lparr>audio_fifo := fifo\<rparr>))))))"

text \<open>\<open>enqueue_audio\<close>: nothing happens unless the track is live; any exception of the
  block is logged and swallowed.\<close>

definition enqueue_audio ::
  "(string \<Rightarrow> exn + byte list) \<Rightarrow> BotAudioTrack \<Rightarrow> string \<Rightarrow> exn + BotAudioTrack" where
  "enqueue_audio b64decode self base64_audio =
     (if readyState self \<noteq> Live then Inr self
      else case enqueue_audio_try b64decode self base64_audio of
             Inl e \<Rightarrow> Inr (self\<lparr>logged := logged self @ [(ERROR, ''Error in enqueue_audio'')]\<rparr>)
           | Inr self' \<Rightarrow> Inr self')"

definition flush_audio :: "BotAudioTrack \<Rightarrow> BotAudioTrack" where
  "flush_audio self = self\<lparr>audio_fifo := AudioFifo_init\<rparr>"

text \<open>
  \<open>recv\<close>. The reading of the clock that initialises \<open>_start\<close> is the argument \<open>now\<close>;
  the sleep until the target time delays the call and changes nothing else. What the
  call \<open>audio_fifo.read(samples)\<close> does is the parameter \<open>read\<close>: the library's read
  with or without a fault in its fallible step. An exception anywhere in the \<open>try\<close>
  block takes the same handler. The result is the frame or the exception, and the track
  after the call.
\<close>

definition recv_with ::
  "(AudioFifo \<Rightarrow> nat \<Rightarrow> exn + AudioFrame option \<times> AudioFifo) \<Rightarrow> rat \<Rightarrow> BotAudioTrack
     \<Rightarrow> (exn + AudioFrame) \<times> BotAudioTrack" where
  "recv_with read now self =
     (if readyState self \<noteq> Live then (Inl MediaStreamError, self)
      else
        let self1 = (if start self = None then self\<lparr>start := Some now, timestamp := 0\<rparr> else self);
            samples = frame_samples;
            self2 = self1\<lparr>timestamp := timestamp self1 + samples\<rparr>
        in case read (audio_fifo self2) samples of
             Inl e \<Rightarrow>
               (Inl MediaStreamError,
                self2\<lparr>logged := logged self2 @ [(ERROR, ''Error in recv'')]\<rparr>)
           | Inr (None, fifo) \<Rightarrow>
               (Inr \<lparr>layout = (if channels = 1 then Mono else Stereo),
                     plane = replicate samples 0,
                     sample_rate = sample_rate_cfg,
                     pts = Some (timestamp self2)\<rparr>,
                self2\<lparr>audio_fifo := fifo\<rparr>)
           | Inr (Some frame, fifo) \<Rightarrow>
               (Inr (frame\<lparr>sample_rate := sample_rate_cfg, pts := Some (timestamp self2)\<rparr>),
                self2\<lparr>audio_fifo := fifo\<rparr>))"

text \<open>\<open>recv\<close> when the library's \<open>read\<close> meets no fault.\<close>

definition recv :: "rat \<Rightarrow> BotAudioTrack \<Rightarrow> (exn + AudioFrame) \<times> BotAudioTrack" where
  "recv now self = recv_with (\<lambda>fifo n. Inr (AudioFifo_read fifo n)) now self"

definition stop :: "BotAudioTrack \<Rightarrow> BotAudioTrack" where
  "stop self = (if readyState self = Live then self\<lparr>readyState := Ended\<rparr> else self)"

text \<open>
  A run of the track: calls of \<open>recv\<close> (each with the clock reading it would take),
  interleaved with writes and flushes from the protocol side. The result lists what
  the \<open>recv\<close> calls returned, in order. An \<open>enqueue_audio\<close> that raised would end
  the run there; it never does.
\<close>

datatype track_call = Recv rat | Enqueue string | Flush

fun track_run ::
  "(string \<Rightarrow> exn + byte list) \<Rightarrow> BotAudioTrack \<Rightarrow> track_call list
     \<Rightarrow> (exn + AudioFrame) list \<times> BotAudioTrack" where
  "track_run b64decode self [] = ([], self)"
| "track_run b64decode self (Recv now # cs) =
     (let (r, self') = recv now self;
          (rs, self'') = track_run b64decode self' cs
      in (r # rs, self''))"
| "track_run b64decode self (Enqueue s # cs) =
     (case enqueue_audio b64decode self s of
        Inl e \<Rightarrow> ([], self)
      | Inr self' \<Rightarrow> track_run b64decode self' cs)"
| "track_run b64decode self (Flush # cs) = track_run b64decode (flush_audio self) cs"

text \<open>The timestamps of the frames among the results of a run.\<close>

fun frame_pts :: "(exn + AudioFrame) list \<Rightarrow> nat option list" where
  "frame_pts [] = []"
| "frame_pts (Inl e # rs) = frame_pts rs"
| "frame_pts (Inr f # rs) = pts f # frame_pts rs"

subsection \<open>The standard library's base64 decoder\<close>

text \<open>
  The functions of the track take the decoder as a parameter, so what is proved of them
  holds whatever the decoder returns. For concrete runs, \<open>base64_b64decode\<close> follows
  \<open>base64.b64decode(s)\<close> of CPython with its default \<open>validate=False\<close>: a string with a
  non-ASCII character is refused; characters outside the alphabet are skipped; a padding
  character ends the input once it completes a quad; an incomplete quad at the end of
  the input is an error.
\<close>

definition table_a2b_base64 :: "char \<Rightarrow> byte option" where
  "table_a2b_base64 c =
     (let n = (of_char c :: nat)
      in if 65 \<le> n \<and> n \<le> 90 then Some (of_nat (n - 65))
         else if 97 \<le> n \<and> n \<le> 122 then Some (of_nat (n - 71))
         else if 48 \<le> n \<and> n \<le> 57 then Some (of_nat (n + 4))
         else if n = 43 then Some 62
         else if n = 47 then Some 63
         else None)"

fun a2b_base64 :: "string \<Rightarrow> nat \<Rightarrow> byte \<Rightarrow> nat \<Rightarrow> byte list \<Rightarrow> exn + byte list" where
  "a2b_base64 [] quad_pos leftchar pads out =
     (if quad_pos \<noteq> 0 then Inl binascii_Error else Inr out)"
| "a2b_base64 (c # cs) quad_pos leftchar pads out =
     (if c = CHR ''='' then
        (if quad_pos \<ge> 2 \<and> quad_pos + (pads + 1) \<ge> 4 then Inr out
         else a2b_base64 cs quad_pos leftchar (if quad_pos \<ge> 2 then pads + 1 else pads) out)
      else
        (case table_a2b_base64 c of
           None \<Rightarrow> a2b_base64 cs quad_pos leftchar pads out
         | Some this_ch \<Rightarrow>
             if quad_pos = 0 then a2b_base64 cs 1 this_ch 0 out
             else if quad_pos = 1 then
               a2b_base64 cs 2 (this_ch AND 15) 0 (out @ [push_bit 2 leftchar OR drop_bit 4 this_ch])
             else if quad_pos = 2 then
               a2b_base64 cs 3 (this_ch AND 3) 0 (out @ [push_bit 4 leftchar OR drop_bit 2 this_ch])
             else
               a2b_base64 cs 0 0 0 (out @ [push_bit 6 leftchar OR this_ch])))"

definition base64_b64decode :: "string \<Rightarrow> exn + byte list" where
  "base64_b64decode s =
     (if list_ex (\<lambda>c. (of_char c :: nat) \<ge> 128) s then Inl ValueError
      else a2b_base64 s 0 0 0 [])"

section \<open>Protocol session: \<open>OpenBot\<close> of \<open>chatbot/open_ai.py\<close>\<close>

text \<open>
  What \<open>json.loads\<close> returns: \<open>None\<close>, a bool, a number, a string, a list, or a dict,
  given by its items (the keys of a dict are distinct).
\<close>

datatype json =
  JNull | JBool bool | JNum rat | JStr string | JArr "json list" | JObj "(string \<times> json) list"

text \<open>Python's truth value of such an object, as \<open>if base64_audio:\<close> tests it.\<close>

definition truthy :: "json \<Rightarrow> bool" where
  "truthy v =
     (case v of
        JNull \<Rightarrow> False
      | JBool b \<Rightarrow> b
      | JNum r \<Rightarrow> r \<noteq> 0
      | JStr s \<Rightarrow> s \<noteq> []
      | JArr xs \<Rightarrow> xs \<noteq> []
      | JObj kvs \<Rightarrow> kvs \<noteq> [])"

text \<open>\<open>message_data.get(key, default)\<close>: only a dict has the method.\<close>

definition dict_get :: "json \<Rightarrow> string \<Rightarrow> json \<Rightarrow> exn + json" where
  "dict_get message_data key dflt =
     (case message_data of
        JObj kvs \<Rightarrow> Inr (case map_of kvs key of None \<Rightarrow> dflt | Some v \<Rightarrow> v)
      | _ \<Rightarrow> Inl AttributeError)"

text \<open>The discriminators of \<open>ResponseMessageTypes\<close>.\<close>

definition sessionCreated :: string where
  "sessionCreated = ''session.created''"

definition sessionUpdated :: string where
  "sessionUpdated = ''session.updated''"

definition responseCreated :: string where
  "responseCreated = ''response.created''"

definition responseDone :: string where
  "responseDone = ''response.done''"

definition responseAudioDone :: string where
  "responseAudioDone = ''response.audio.done''"

definition responseAudioDelta :: string where
  "responseAudioDelta = ''response.audio.delta''"

definition responseAudioTranscriptDelta :: string where
  "responseAudioTranscriptDelta = ''response.audio_transcript.delta''"

definition rateLimitUpdated :: string where
  "rateLimitUpdated = ''rate_limit.updated''"

definition inputAudioBufferSpeechStarted :: string where
  "inputAudioBufferSpeechStarted = ''input_audio_buffer.speech_started''"

definition inputAudioBufferSpeechStopped :: string where
  "inputAudioBufferSpeechStopped = ''input_audio_buffer.speech_stopped''"

definition error :: string where
  "error = ''error''"

text \<open>The bot: its audio track, the count of chunks sent, and the records written to
  the logger \<open>OpenAI\<close>.\<close>

record OpenBot =
  audio_track :: BotAudioTrack
  chunk_number :: nat
  bot_logged :: "log_record list"

definition OpenBot_init :: OpenBot where
  "OpenBot_init = \<lparr>audio_track = BotAudioTrack_init, chunk_number = 0, bot_logged = []\<rparr>"

definition log_bot :: "level \<Rightarrow> string \<Rightarrow> OpenBot \<Rightarrow> OpenBot" where
  "log_bot lvl msg self = self\<lparr>bot_logged := bot_logged self @ [(lvl, msg)]\<rparr>"

text \<open>
  \<open>audio_track.enqueue_audio(base64_audio)\<close> with whatever the message holds under
  \<open>delta\<close>. For an object that is not a string, \<open>base64.b64decode\<close> raises \<open>TypeError\<close>
  inside the \<open>try\<close> block of \<open>enqueue_audio\<close>, which logs it.
\<close>

definition enqueue_audio_object ::
  "(string \<Rightarrow> exn + byte list) \<Rightarrow> BotAudioTrack \<Rightarrow> json \<Rightarrow> exn + BotAudioTrack" where
  "enqueue_audio_object b64decode self v =
     (case v of
        JStr s \<Rightarrow> enqueue_audio b64decode self s
      | _ \<Rightarrow>
          if readyState self \<noteq> Live then Inr self
          else Inr (self\<lparr>logged := logged self @ [(ERROR, ''Error in enqueue_audio'')]\<rparr>))"

text \<open>
  The handlers. Each takes the bot and the decoded message and returns the exception it
  raised, if any, with the bot as the call left it.
\<close>

type_synonym handler =
  "(string \<Rightarrow> exn + byte list) \<Rightarrow> OpenBot \<Rightarrow> json \<Rightarrow> exn option \<times> OpenBot"

definition handle_session_created :: handler where
  "handle_session_created b64decode self message_data =
     (None, log_bot INFO ''New Session created:'' self)"

definition handle_audio_delta :: handler where
  "handle_audio_delta b64decode self message_data =
     (case dict_get message_data ''delta'' JNull of
        Inl e \<Rightarrow> (Some e, self)
      | Inr base64_audio \<Rightarrow>
          if truthy base64_audio then
            (case enqueue_audio_object b64decode (audio_track self) base64_audio of
               Inl e \<Rightarrow> (Some e, self)
             | Inr track \<Rightarrow> (None, self\<lparr>audio_track := track\<rparr>))
          else (None, self))"

definition handle_audio_transcript_delta :: handler where
  "handle_audio_transcript_delta b64decode self message_data = (None, self)"

definition handle_session_updated :: handler where
  "handle_session_updated b64decode self message_data =
     (None, log_bot INFO ''Session updated'' self)"

definition handle_response_created :: handler where
  "handle_response_created b64decode self message_data =
     (None, log_bot INFO ''Response created'' self)"

definition handle_response_done :: handler where
  "handle_response_done b64decode self message_data =
     (None, log_bot INFO ''Response done'' self)"

definition handle_audio_done :: handler where
  "handle_audio_done b64decode self message_data =
     (None, log_bot INFO ''Response audio done'' self)"

definition handle_rate_limit :: handler where
  "handle_rate_limit b64decode self message_data =
     (None, log_bot INFO ''Rate limit updated'' self)"

definition handle_error :: handler where
  "handle_error b64decode self message_data =
     (None, log_bot ERROR ''Error'' self)"

text \<open>\<open>flush_audio\<close> does not raise, so the \<open>except\<close> branch of this handler is never
  taken.\<close>

definition handle_audio_buffer_speech_started :: handler where
  "handle_audio_buffer_speech_started b64decode self message_data =
     (let self1 = log_bot INFO ''Speech Started'' self
      in (None, self1\<lparr>audio_track := flush_audio (audio_track self1)\<rparr>))"

definition handle_audio_buffer_speech_stopped :: handler where
  "handle_audio_buffer_speech_stopped b64decode self message_data =
     (None, log_bot INFO ''Speech Stopped'' self)"

text \<open>The table \<open>handlers\<close> of \<open>_handle_message\<close>, entry by entry as the source wires
  it.\<close>

definition handlers :: "(string \<times> handler) list" where
  "handlers =
     [(sessionCreated, handle_session_created),
      (responseAudioDelta, handle_audio_delta),
      (responseAudioTranscriptDelta, handle_audio_transcript_delta),
      (sessionUpdated, handle_session_updated),
      (responseCreated, handle_response_created),
      (responseDone, handle_response_done),
      (responseAudioDone, handle_audio_done),
      (rateLimitUpdated, handle_rate_limit),
      (inputAudioBufferSpeechStarted, handle_audio_buffer_speech_started),
      (inputAudioBufferSpeechStopped, handle_audio_delta),
      (error, handle_audio_buffer_speech_stopped)]"

text \<open>\<open>handlers.get(message_type)\<close>: a list or a dict is unhashable; any other object
  that is not a string equals no key.\<close>

definition handlers_get :: "json \<Rightarrow> exn + handler option" where
  "handlers_get message_type =
     (case message_type of
        JStr s \<Rightarrow> Inr (map_of handlers s)
      | JArr xs \<Rightarrow> Inl TypeError
      | JObj kvs \<Rightarrow> Inl TypeError
      | _ \<Rightarrow> Inr None)"

text \<open>
  The \<open>try\<close> block of \<open>_handle_message\<close>. Its argument is what \<open>json.loads(message)\<close>
  gave for the frame received: the decoded object, or the exception raised.
\<close>

definition handle_message_try ::
  "(string \<Rightarrow> exn + byte list) \<Rightarrow> OpenBot \<Rightarrow> exn + json \<Rightarrow> exn option \<times> OpenBot" where
  "handle_message_try b64decode self loaded =
     (case loaded of
        Inl e \<Rightarrow> (Some e, self)
      | Inr message_data \<Rightarrow>
     (case dict_get message_data ''type'' (JStr ''unknown'') of
        Inl e \<Rightarrow> (Some e, self)
      | Inr message_type \<Rightarrow>
          let self1 = log_bot DEBUG ''Received message of type'' self
          in (case handlers_get message_type of
                Inl e \<Rightarrow> (Some e, self1)
              | Inr None \<Rightarrow> (None, log_bot ERROR ''Unhandled message type'' self1)
              | Inr (Some handler) \<Rightarrow> handler b64decode self1 message_data)))"

text \<open>\<open>_handle_message\<close>: every exception of the block is logged, by the first
  \<open>except\<close> clause that matches, and none leaves the call.\<close>

definition handle_message :: "(string \<Rightarrow> exn + byte list) \<Rightarrow> OpenBot \<Rightarrow> exn + json \<Rightarrow> OpenBot" where
  "handle_message b64decode self loaded =
     (case handle_message_try b64decode self loaded of
        (None, self') \<Rightarrow> self'
      | (Some JSONDecodeError, self') \<Rightarrow> log_bot ERROR ''Failed to decode message'' self'
      | (Some KeyError, self') \<Rightarrow> log_bot ERROR ''Missing required key in message'' self'
      | (Some e, self') \<Rightarrow>
          log_bot ERROR ''exception'' (log_bot ERROR ''Unexpected error handling message'' self'))"

text \<open>The loop of \<open>_listen\<close>: the frames received are handled one after the other,
  each call on the bot the previous one left.\<close>

fun listen :: "(string \<Rightarrow> exn + byte list) \<Rightarrow> OpenBot \<Rightarrow> (exn + json) list \<Rightarrow> OpenBot" where
  "listen b64decode self [] = self"
| "listen b64decode self (message # messages) =
     listen b64decode (handle_message b64decode self message) messages"

definition close :: "OpenBot \<Rightarrow> OpenBot" where
  "close self = self\<lparr>audio_track := stop (audio_track self)\<rparr>"

text \<open>The number of \<open>recv\<close> calls in a run, and the value \<open>_timestamp\<close> has after the
  next \<open>recv\<close> of a live track: the first call starts from 0.\<close>

fun recv_count :: "track_call list \<Rightarrow> nat" where
  "recv_count [] = 0"
| "recv_count (Recv now # cs) = Suc (recv_count cs)"
| "recv_count (c # cs) = recv_count cs"

definition next_timestamp :: "BotAudioTrack \<Rightarrow> nat" where
  "next_timestamp self = (if start self = None then 0 else timestamp self) + frame_samples"



section \<open>Properties of the chunker\<close>

lemma PREFERRED_CHUNK_SIZE_pos: "0 < PREFERRED_CHUNK_SIZE"
  by (simp add: PREFERRED_CHUNK_SIZE_def)

lemma add_audio_loop_ge:
  "PREFERRED_CHUNK_SIZE \<le> length buf \<Longrightarrow>
   add_audio_loop buf chunks =
     add_audio_loop (drop PREFERRED_CHUNK_SIZE buf) (chunks @ [take PREFERRED_CHUNK_SIZE buf])"
  by (subst add_audio_loop.simps) simp

lemma add_audio_loop_lt:
  "length buf < PREFERRED_CHUNK_SIZE \<Longrightarrow> add_audio_loop buf chunks = (chunks, buf)"
  by (subst add_audio_loop.simps) simp

text \<open>The chunks already collected are only ever extended at the end.\<close>

lemma add_audio_loop_acc:
  "add_audio_loop buf chunks = (chunks @ fst (add_audio_loop buf []), snd (add_audio_loop buf []))"
proof (induction "length buf" arbitrary: buf chunks rule: less_induct)
  case less
  show ?case
  proof (cases "PREFERRED_CHUNK_SIZE \<le> length buf")
    case True
    let ?d = "drop PREFERRED_CHUNK_SIZE buf" and ?t = "take PREFERRED_CHUNK_SIZE buf"
    have shorter: "length ?d < length buf"
      using True PREFERRED_CHUNK_SIZE_pos by simp
    have "add_audio_loop buf chunks = add_audio_loop ?d (chunks @ [?t])"
      using True by (rule add_audio_loop_ge)
    also have "\<dots> = ((chunks @ [?t]) @ fst (add_audio_loop ?d []), snd (add_audio_loop ?d []))"
      using less [OF shorter] .
    finally have lhs: "add_audio_loop buf chunks
        = (chunks @ ?t # fst (add_audio_loop ?d []), snd (add_audio_loop ?d []))"
      by simp
    have "add_audio_loop buf [] = add_audio_loop ?d ([] @ [?t])"
      using True by (rule add_audio_loop_ge)
    also have "\<dots> = (([] @ [?t]) @ fst (add_audio_loop ?d []), snd (add_audio_loop ?d []))"
      using less [OF shorter] .
    finally have rhs: "add_audio_loop buf [] = (?t # fst (add_audio_loop ?d []), snd (add_audio_loop ?d []))"
      by simp
    show ?thesis by (simp add: lhs rhs)
  next
    case False
    then show ?thesis by (simp add: add_audio_loop_lt)
  qed
qed

lemma emitted_ge:
  "PREFERRED_CHUNK_SIZE \<le> length buf \<Longrightarrow>
   emitted buf = take PREFERRED_CHUNK_SIZE buf # emitted (drop PREFERRED_CHUNK_SIZE buf)"
  unfolding emitted_def
  by (subst add_audio_loop_ge, assumption, subst add_audio_loop_acc) simp

lemma leftover_ge:
  "PREFERRED_CHUNK_SIZE \<le> length buf \<Longrightarrow> leftover buf = leftover (drop PREFERRED_CHUNK_SIZE buf)"
  unfolding leftover_def
  by (subst add_audio_loop_ge, assumption, subst add_audio_loop_acc) simp

lemma emitted_lt: "length buf < PREFERRED_CHUNK_SIZE \<Longrightarrow> emitted buf = []"
  by (simp add: emitted_def add_audio_loop_lt)

lemma leftover_lt: "length buf < PREFERRED_CHUNK_SIZE \<Longrightarrow> leftover buf = buf"
  by (simp add: leftover_def add_audio_loop_lt)

lemma add_audio_eq:
  "add_audio self d = (emitted (buffer self @ d), self\<lparr>buffer := leftover (buffer self @ d)\<rparr>)"
  by (simp add: add_audio_def emitted_def leftover_def split: prod.split)

lemma leftover_short: "length (leftover buf) < PREFERRED_CHUNK_SIZE"
proof (induction "length buf" arbitrary: buf rule: less_induct)
  case less
  show ?case
  proof (cases "PREFERRED_CHUNK_SIZE \<le> length buf")
    case True
    then have "length (drop PREFERRED_CHUNK_SIZE buf) < length buf"
      using PREFERRED_CHUNK_SIZE_pos by simp
    then show ?thesis using less True by (simp add: leftover_ge)
  next
    case False
    then show ?thesis by (simp add: leftover_lt)
  qed
qed

lemma emitted_lengths: "c \<in> set (emitted buf) \<Longrightarrow> length c = PREFERRED_CHUNK_SIZE"
proof (induction "length buf" arbitrary: buf rule: less_induct)
  case less
  show ?case
  proof (cases "PREFERRED_CHUNK_SIZE \<le> length buf")
    case True
    then have shorter: "length (drop PREFERRED_CHUNK_SIZE buf) < length buf"
      using PREFERRED_CHUNK_SIZE_pos by simp
    from less.prems True
    have "c = take PREFERRED_CHUNK_SIZE buf \<or> c \<in> set (emitted (drop PREFERRED_CHUNK_SIZE buf))"
      by (simp add: emitted_ge)
    then show ?thesis
    proof
      assume "c = take PREFERRED_CHUNK_SIZE buf"
      then show ?thesis using True by simp
    next
      assume "c \<in> set (emitted (drop PREFERRED_CHUNK_SIZE buf))"
      then show ?thesis using less.hyps [OF shorter] by simp
    qed
  next
    case False
    then show ?thesis using less.prems by (simp add: emitted_lt)
  qed
qed

lemma emitted_concat: "concat (emitted buf) @ leftover buf = buf"
proof (induction "length buf" arbitrary: buf rule: less_induct)
  case less
  show ?case
  proof (cases "PREFERRED_CHUNK_SIZE \<le> length buf")
    case True
    then have shorter: "length (drop PREFERRED_CHUNK_SIZE buf) < length buf"
      using PREFERRED_CHUNK_SIZE_pos by simp
    show ?thesis
      using less.hyps [OF shorter] True by (simp add: emitted_ge leftover_ge)
  next
    case False
    then show ?thesis by (simp add: emitted_lt leftover_lt)
  qed
qed

text \<open>Splitting the pending bytes in two does not move any chunk boundary.\<close>

lemma emitted_append:
  "emitted (a @ b) = emitted a @ emitted (leftover a @ b) \<and>
   leftover (a @ b) = leftover (leftover a @ b)"
proof (induction "length a" arbitrary: a rule: less_induct)
  case less
  show ?case
  proof (cases "PREFERRED_CHUNK_SIZE \<le> length a")
    case True
    then have shorter: "length (drop PREFERRED_CHUNK_SIZE a) < length a"
      using PREFERRED_CHUNK_SIZE_pos by simp
    have ab: "PREFERRED_CHUNK_SIZE \<le> length (a @ b)" using True by simp
    have t: "take PREFERRED_CHUNK_SIZE (a @ b) = take PREFERRED_CHUNK_SIZE a"
      using True by simp
    have d: "drop PREFERRED_CHUNK_SIZE (a @ b) = drop PREFERRED_CHUNK_SIZE a @ b"
      using True by simp
    have e: "emitted (a @ b) = take PREFERRED_CHUNK_SIZE a # emitted (drop PREFERRED_CHUNK_SIZE a @ b)"
      using emitted_ge [OF ab] by (simp only: t d)
    have l: "leftover (a @ b) = leftover (drop PREFERRED_CHUNK_SIZE a @ b)"
      using leftover_ge [OF ab] by (simp only: d)
    show ?thesis
      using less.hyps [OF shorter]
      by (simp only: e l emitted_ge [OF True] leftover_ge [OF True] append_Cons)
  next
    case False
    then show ?thesis by (simp add: emitted_lt leftover_lt)
  qed
qed

text \<open>Chunk number \<open>i\<close> is the slice of the pending bytes that starts at offset
  \<open>i * PREFERRED_CHUNK_SIZE\<close>.\<close>

lemma emitted_nth:
  "i < length (emitted buf) \<Longrightarrow>
   emitted buf ! i = take PREFERRED_CHUNK_SIZE (drop (i * PREFERRED_CHUNK_SIZE) buf)"
proof (induction i arbitrary: buf)
  case 0
  then have "PREFERRED_CHUNK_SIZE \<le> length buf"
    by (cases "PREFERRED_CHUNK_SIZE \<le> length buf") (simp_all add: emitted_lt)
  then show ?case by (simp add: emitted_ge)
next
  case (Suc i)
  then have ge: "PREFERRED_CHUNK_SIZE \<le> length buf"
    by (cases "PREFERRED_CHUNK_SIZE \<le> length buf") (simp_all add: emitted_lt)
  from Suc.prems have "i < length (emitted (drop PREFERRED_CHUNK_SIZE buf))"
    by (simp add: emitted_ge [OF ge])
  from Suc.IH [OF this] show ?case
    by (simp add: emitted_ge [OF ge] add.commute)
qed

lemma add_audio_calls_buffer:
  "concat (fst (add_audio_calls self ds)) @ buffer (snd (add_audio_calls self ds))
     = buffer self @ concat ds"
proof (induction ds arbitrary: self)
  case Nil
  show ?case by simp
next
  case (Cons d ds)
  let ?s = "self\<lparr>buffer := leftover (buffer self @ d)\<rparr>"
  have step: "concat (emitted (buffer self @ d)) @ leftover (buffer self @ d) = buffer self @ d"
    by (rule emitted_concat)
  have calls: "add_audio_calls self (d # ds)
      = (emitted (buffer self @ d) @ fst (add_audio_calls ?s ds), snd (add_audio_calls ?s ds))"
    by (simp add: add_audio_eq split: prod.split)
  have "concat (fst (add_audio_calls self (d # ds))) @ buffer (snd (add_audio_calls self (d # ds)))
      = concat (emitted (buffer self @ d))
        @ (concat (fst (add_audio_calls ?s ds)) @ buffer (snd (add_audio_calls ?s ds)))"
    unfolding calls by simp
  also have "\<dots> = concat (emitted (buffer self @ d)) @ (buffer ?s @ concat ds)"
    by (simp only: Cons)
  also have "\<dots> = (concat (emitted (buffer self @ d)) @ leftover (buffer self @ d)) @ concat ds"
    by simp
  also have "\<dots> = buffer self @ concat (d # ds)"
    by (simp only: step) simp
  finally show ?case .
qed

lemma add_audio_twice:
  "add_audio_calls self [a, b] = add_audio_calls self [a @ b]"
proof -
  let ?s = "self\<lparr>buffer := leftover (buffer self @ a)\<rparr>"
  have two: "add_audio_calls self [a, b]
      = (emitted (buffer self @ a) @ emitted (leftover (buffer self @ a) @ b),
         self\<lparr>buffer := leftover (leftover (buffer self @ a) @ b)\<rparr>)"
    by (simp add: add_audio_eq)
  have one: "add_audio_calls self [a @ b]
      = (emitted ((buffer self @ a) @ b), self\<lparr>buffer := leftover ((buffer self @ a) @ b)\<rparr>)"
    by (simp add: add_audio_eq)
  show ?thesis
    unfolding two one using emitted_append [of "buffer self @ a" b] by simp
qed

lemma add_audio_small:
  "length (buffer self @ d) < PREFERRED_CHUNK_SIZE \<Longrightarrow>
   add_audio self d = ([], self\<lparr>buffer := buffer self @ d\<rparr>)"
  by (simp add: add_audio_eq emitted_lt leftover_lt)

lemma add_audio_one:
  "PREFERRED_CHUNK_SIZE \<le> length (buffer self @ d) \<Longrightarrow>
   length (buffer self @ d) < 2 * PREFERRED_CHUNK_SIZE \<Longrightarrow>
   add_audio self d = ([take PREFERRED_CHUNK_SIZE (buffer self @ d)],
                       self\<lparr>buffer := drop PREFERRED_CHUNK_SIZE (buffer self @ d)\<rparr>)"
proof -
  assume ge: "PREFERRED_CHUNK_SIZE \<le> length (buffer self @ d)"
    and lt: "length (buffer self @ d) < 2 * PREFERRED_CHUNK_SIZE"
  have rest: "length (drop PREFERRED_CHUNK_SIZE (buffer self @ d)) < PREFERRED_CHUNK_SIZE"
    using ge lt by simp
  show ?thesis
    by (simp only: add_audio_eq emitted_ge [OF ge] leftover_ge [OF ge]
        emitted_lt [OF rest] leftover_lt [OF rest])
qed

section \<open>The claims about the chunker\<close>

text \<open>
  C4 (split-invariance). Calling \<open>add_audio\<close> with \<open>A\<close> and then with \<open>B\<close> emits, in
  total, the same chunks in the same order as the single call with \<open>A + B\<close>, and leaves
  the same buffer. This holds from every accumulator, the fresh one included.
\<close>

theorem add_audio_split_invariant:
  "add_audio_calls AudioProcessor_init [A, B] = add_audio_calls AudioProcessor_init [A @ B]
   \<and> add_audio_calls self [A, B] = add_audio_calls self [A @ B]"
  by (simp only: add_audio_twice)

text \<open>
  C5 (round trip). After any sequence of \<open>add_audio\<close> calls on a fresh accumulator, the
  chunks emitted, concatenated in emission order and followed by the bytes of a final
  \<open>get_remaining()\<close>, are the concatenation of the inputs.
\<close>

theorem add_audio_roundtrip:
  "concat (fst (add_audio_calls AudioProcessor_init ds))
     @ bytes_of (fst (get_remaining (snd (add_audio_calls AudioProcessor_init ds))))
   = concat ds"
proof -
  let ?r = "add_audio_calls AudioProcessor_init ds"
  have "bytes_of (fst (get_remaining (snd ?r))) = buffer (snd ?r)"
    by (simp add: get_remaining_def bytes_of_def)
  moreover have "concat (fst ?r) @ buffer (snd ?r) = buffer AudioProcessor_init @ concat ds"
    by (rule add_audio_calls_buffer)
  ultimately show ?thesis
    by (simp add: AudioProcessor_init_def)
qed

text \<open>
  C6 (invariant). After every \<open>add_audio\<close> call the buffer is strictly shorter than
  \<open>PREFERRED_CHUNK_SIZE\<close>; every chunk of the call has exactly that length; the chunks
  come in arrival order: chunk \<open>i\<close> is the slice at offset \<open>i * PREFERRED_CHUNK_SIZE\<close>
  of the bytes pending (old buffer followed by the new data), and chunks and new buffer
  together are those bytes. Calls with 10000, 10000 and 6000 bytes on a fresh
  accumulator emit exactly one chunk, of 24576 bytes, and leave 1424 bytes.
\<close>

theorem add_audio_invariant:
  "length (buffer (snd (add_audio self d))) < PREFERRED_CHUNK_SIZE
   \<and> (\<forall>c \<in> set (fst (add_audio self d)). length c = PREFERRED_CHUNK_SIZE)
   \<and> (\<forall>i < length (fst (add_audio self d)).
         fst (add_audio self d) ! i
           = take PREFERRED_CHUNK_SIZE (drop (i * PREFERRED_CHUNK_SIZE) (buffer self @ d)))
   \<and> concat (fst (add_audio self d)) @ buffer (snd (add_audio self d)) = buffer self @ d
   \<and> (length a = 10000 \<and> length b = 10000 \<and> length c = 6000 \<longrightarrow>
        PREFERRED_CHUNK_SIZE = 24576
        \<and> fst (add_audio_calls AudioProcessor_init [a, b, c]) = [take 24576 (a @ b @ c)]
        \<and> length (take 24576 (a @ b @ c)) = 24576
        \<and> buffer (snd (add_audio_calls AudioProcessor_init [a, b, c])) = drop 24576 (a @ b @ c)
        \<and> length (buffer (snd (add_audio_calls AudioProcessor_init [a, b, c]))) = 1424)"
proof (intro conjI impI)
  show "length (buffer (snd (add_audio self d))) < PREFERRED_CHUNK_SIZE"
    by (simp add: add_audio_eq leftover_short)
  show "\<forall>c \<in> set (fst (add_audio self d)). length c = PREFERRED_CHUNK_SIZE"
    by (simp add: add_audio_eq emitted_lengths)
  show "\<forall>i < length (fst (add_audio self d)).
         fst (add_audio self d) ! i
           = take PREFERRED_CHUNK_SIZE (drop (i * PREFERRED_CHUNK_SIZE) (buffer self @ d))"
    by (simp add: add_audio_eq emitted_nth)
  show "concat (fst (add_audio self d)) @ buffer (snd (add_audio self d)) = buffer self @ d"
    by (simp add: add_audio_eq emitted_concat)
next
  assume len: "length a = 10000 \<and> length b = 10000 \<and> length c = 6000"
  show size: "PREFERRED_CHUNK_SIZE = 24576"
    by (simp add: PREFERRED_CHUNK_SIZE_def)
  let ?s0 = "AudioProcessor_init"
  let ?s1 = "?s0\<lparr>buffer := a\<rparr>"
  let ?s2 = "?s0\<lparr>buffer := a @ b\<rparr>"
  have c1: "add_audio ?s0 a = ([], ?s1)"
    using add_audio_small [of ?s0 a] len by (simp add: size AudioProcessor_init_def)
  have c2: "add_audio ?s1 b = ([], ?s2)"
    using add_audio_small [of ?s1 b] len by (simp add: size AudioProcessor_init_def)
  have c3: "add_audio ?s2 c = ([take 24576 (a @ b @ c)], ?s0\<lparr>buffer := drop 24576 (a @ b @ c)\<rparr>)"
    using add_audio_one [of ?s2 c] len by (simp add: size AudioProcessor_init_def)
  have all: "add_audio_calls ?s0 [a, b, c]
      = ([take 24576 (a @ b @ c)], ?s0\<lparr>buffer := drop 24576 (a @ b @ c)\<rparr>)"
    by (simp add: c1 c2 c3)
  show "fst (add_audio_calls ?s0 [a, b, c]) = [take 24576 (a @ b @ c)]"
    by (simp only: all fst_conv)
  show "length (take 24576 (a @ b @ c)) = 24576"
    using len by simp
  show "buffer (snd (add_audio_calls ?s0 [a, b, c])) = drop 24576 (a @ b @ c)"
    by (simp only: all snd_conv) simp
  show "length (buffer (snd (add_audio_calls ?s0 [a, b, c]))) = 1424"
    using len by (simp only: all snd_conv) simp
qed

theorem add_audio_invariant_witness:
  "length (buffer (snd (add_audio AudioProcessor_init (replicate 24577 0)))) < PREFERRED_CHUNK_SIZE
   \<and> replicate 24576 0 \<in> set (fst (add_audio AudioProcessor_init (replicate 24577 0)))
   \<and> length (replicate 24576 (0::byte)) = PREFERRED_CHUNK_SIZE
   \<and> 0 < length (fst (add_audio AudioProcessor_init (replicate 24577 0)))
   \<and> fst (add_audio AudioProcessor_init (replicate 24577 0)) ! 0 = replicate 24576 0
   \<and> length (replicate 10000 (0::byte)) = 10000 \<and> length (replicate 6000 (0::byte)) = 6000
   \<and> length (fst (add_audio_calls AudioProcessor_init
                [replicate 10000 0, replicate 10000 0, replicate 6000 0])) = 1
   \<and> length (buffer (snd (add_audio_calls AudioProcessor_init
                [replicate 10000 0, replicate 10000 0, replicate 6000 0]))) = 1424"
proof -
  let ?d = "replicate 24577 (0::byte)"
  let ?a = "replicate 10000 (0::byte)" and ?c = "replicate 6000 (0::byte)"
  note inv = add_audio_invariant [of AudioProcessor_init ?d ?a ?a ?c]
  have run: "add_audio AudioProcessor_init ?d
      = ([replicate 24576 0], AudioProcessor_init\<lparr>buffer := [0]\<rparr>)"
    using add_audio_one [of AudioProcessor_init ?d]
    by (simp add: PREFERRED_CHUNK_SIZE_def AudioProcessor_init_def)
  have mem: "replicate 24576 0 \<in> set (fst (add_audio AudioProcessor_init ?d))"
    by (simp add: run)
  have pos: "0 < length (fst (add_audio AudioProcessor_init ?d))"
    by (simp add: run)
  have first: "fst (add_audio AudioProcessor_init ?d) ! 0 = replicate 24576 0"
    by (simp add: run)
  have len: "length ?a = 10000 \<and> length ?a = 10000 \<and> length ?c = 6000"
    by simp
  from inv have short: "length (buffer (snd (add_audio AudioProcessor_init ?d))) < PREFERRED_CHUNK_SIZE"
    by (rule conjunct1)
  from inv mem have size: "length (replicate 24576 (0::byte)) = PREFERRED_CHUNK_SIZE"
    by blast
  from inv len have sc: "fst (add_audio_calls AudioProcessor_init [?a, ?a, ?c]) = [take 24576 (?a @ ?a @ ?c)]
      \<and> length (buffer (snd (add_audio_calls AudioProcessor_init [?a, ?a, ?c]))) = 1424"
    by blast
  from sc have one: "length (fst (add_audio_calls AudioProcessor_init [?a, ?a, ?c])) = 1"
    by (simp only: list.size)
  show ?thesis
    using short mem size pos first len one sc by blast
qed

text \<open>
  C9 (\<open>get_remaining\<close> observes only). The call leaves the accumulator as it was, so a
  second call returns the same and a later \<open>add_audio\<close> behaves as if it had not been
  made; the result is the buffered bytes when there are any, and \<open>None\<close>, never an
  empty byte string, when the buffer is empty.
\<close>

theorem get_remaining_observer:
  "snd (get_remaining self) = self
   \<and> fst (get_remaining (snd (get_remaining self))) = fst (get_remaining self)
   \<and> add_audio (snd (get_remaining self)) d = add_audio self d
   \<and> (buffer self \<noteq> [] \<longrightarrow> fst (get_remaining self) = Some (buffer self))
   \<and> (buffer self = [] \<longrightarrow> fst (get_remaining self) = None)
   \<and> fst (get_remaining self) \<noteq> Some []"
  by (simp add: get_remaining_def)

theorem get_remaining_observer_witness:
  "fst (get_remaining \<lparr>buffer = [1, 2]\<rparr>) = Some [1, 2]
   \<and> fst (get_remaining \<lparr>buffer = []\<rparr>) = None
   \<and> snd (get_remaining \<lparr>buffer = [1, 2]\<rparr>) = \<lparr>buffer = [1, 2]\<rparr>"
  using get_remaining_observer [of "\<lparr>buffer = [1, 2]\<rparr>"]
        get_remaining_observer [of "\<lparr>buffer = []\<rparr>"]
  by simp

section \<open>Properties of the track\<close>

lemma enqueue_audio_try_fields:
  "enqueue_audio_try b64decode self s = Inr self' \<Longrightarrow>
   readyState self' = readyState self \<and> start self' = start self
   \<and> timestamp self' = timestamp self \<and> logged self' = logged self"
  by (auto simp: enqueue_audio_try_def split: sum.splits)

lemma enqueue_audio_try_raises:
  "enqueue_audio_try b64decode self s = Inl e \<Longrightarrow> readyState self = Live \<Longrightarrow>
   enqueue_audio b64decode self s
     = Inr (self\<lparr>logged := logged self @ [(ERROR, ''Error in enqueue_audio'')]\<rparr>)"
  by (simp add: enqueue_audio_def)

lemma enqueue_audio_returns:
  "\<exists>self'. enqueue_audio b64decode self s = Inr self'"
  by (simp add: enqueue_audio_def split: sum.split)

lemma enqueue_audio_fields:
  "enqueue_audio b64decode self s = Inr self' \<Longrightarrow>
   readyState self' = readyState self \<and> start self' = start self
   \<and> timestamp self' = timestamp self"
  by (auto simp: enqueue_audio_def split: if_splits sum.splits dest: enqueue_audio_try_fields)

text \<open>A valid payload on a live track: the decoded samples are appended to the FIFO.\<close>

lemma enqueue_audio_valid:
  assumes live: "readyState self = Live"
    and dec: "b64decode s = Inr bs" and even: "even (length bs)"
    and tmpl: "template (audio_fifo self) = None \<or> template (audio_fifo self) = Some (Mono, sample_rate_cfg)"
  shows "\<exists>self'. enqueue_audio b64decode self s = Inr self'
          \<and> buffered (audio_fifo self') = buffered (audio_fifo self) @ int16_pairs bs"
proof -
  have fb: "frombuffer_int16 bs = Inr (int16_pairs bs)"
    using even by (simp add: frombuffer_int16_def)
  have rs: "reshape (Suc 0) (int16_pairs bs) = Inr [int16_pairs bs]"
    by (simp add: reshape_def)
  have fr: "AudioFrame_from_ndarray [int16_pairs bs] Mono
      = Inr \<lparr>layout = Mono, plane = int16_pairs bs, sample_rate = 0, pts = None\<rparr>"
    by (simp add: AudioFrame_from_ndarray_def)
  show ?thesis
    using tmpl
    by (auto simp: enqueue_audio_def enqueue_audio_try_def channels_def live dec fb rs fr
        AudioFifo_write_def)
qed

lemma recv_with_live:
  assumes "readyState self = Live" and "read (audio_fifo self) frame_samples = Inr (r, fifo)"
  shows "\<exists>f. recv_with read now self = (Inr f, snd (recv_with read now self))
          \<and> pts f = Some (next_timestamp self) \<and> sample_rate f = sample_rate_cfg
          \<and> (r = None \<longrightarrow> plane f = replicate frame_samples 0
                \<and> layout f = (if channels = 1 then Mono else Stereo))
          \<and> (\<forall>g. r = Some g \<longrightarrow> plane f = plane g \<and> layout f = layout g)
          \<and> readyState (snd (recv_with read now self)) = Live
          \<and> start (snd (recv_with read now self)) \<noteq> None
          \<and> timestamp (snd (recv_with read now self)) = next_timestamp self
          \<and> audio_fifo (snd (recv_with read now self)) = fifo
          \<and> logged (snd (recv_with read now self)) = logged self"
  using assms
  by (cases r) (auto simp: recv_with_def next_timestamp_def Let_def)

lemma recv_live:
  assumes "readyState self = Live"
  shows "\<exists>f. recv now self = (Inr f, snd (recv now self))
          \<and> pts f = Some (next_timestamp self)
          \<and> readyState (snd (recv now self)) = Live
          \<and> start (snd (recv now self)) \<noteq> None
          \<and> timestamp (snd (recv now self)) = next_timestamp self"
proof -
  obtain r fifo where rd: "AudioFifo_read (audio_fifo self) frame_samples = (r, fifo)"
    by (cases "AudioFifo_read (audio_fifo self) frame_samples")
  from recv_with_live [of self "\<lambda>fifo n. Inr (AudioFifo_read fifo n)" r fifo now] assms rd
  show ?thesis
    unfolding recv_def by auto
qed

lemma map_upt_from_one:
  "map g [1..<Suc (Suc n)] = g 1 # map (\<lambda>k. g (Suc k)) [1..<Suc n]"
proof -
  have "[1..<Suc (Suc n)] = 1 # [Suc 1..<Suc (Suc n)]"
    by (simp add: upt_conv_Cons)
  also have "[Suc 1..<Suc (Suc n)] = map Suc [1..<Suc n]"
    by (simp only: map_Suc_upt)
  finally show ?thesis
    by (simp add: comp_def)
qed

text \<open>The timestamps of a run on a live track: every \<open>recv\<close> returns a frame, and the
  \<open>k\<close>-th frame carries \<open>k * frame_samples\<close> more than the track had before the run,
  whatever is written or flushed in between.\<close>

lemma track_run_pts:
  "readyState self = Live \<Longrightarrow>
   frame_pts (fst (track_run b64decode self cs))
     = map (\<lambda>k. Some (next_timestamp self - frame_samples + k * frame_samples))
           [1..<Suc (recv_count cs)]
   \<and> length (fst (track_run b64decode self cs)) = recv_count cs"
proof (induction cs arbitrary: self)
  case Nil
  show ?case by simp
next
  case (Cons c cs)
  show ?case
  proof (cases c)
    case (Recv now)
    from recv_live [OF Cons.prems, of now] obtain f where
      r: "recv now self = (Inr f, snd (recv now self))"
      and p: "pts f = Some (next_timestamp self)"
      and l: "readyState (snd (recv now self)) = Live"
      and s: "start (snd (recv now self)) \<noteq> None"
      and t: "timestamp (snd (recv now self)) = next_timestamp self"
      by blast
    let ?s = "snd (recv now self)"
    have nxt: "next_timestamp ?s = next_timestamp self + frame_samples"
      using s t by (auto simp: next_timestamp_def)
    have run: "track_run b64decode self (c # cs)
        = (Inr f # fst (track_run b64decode ?s cs), snd (track_run b64decode ?s cs))"
      by (subst Recv, subst track_run.simps, subst r) (simp add: split_beta)
    have ih: "frame_pts (fst (track_run b64decode ?s cs))
        = map (\<lambda>k. Some (next_timestamp self + k * frame_samples)) [1..<Suc (recv_count cs)]"
      using Cons.IH [OF l] by (simp add: nxt)
    have len: "length (fst (track_run b64decode ?s cs)) = recv_count cs"
      using Cons.IH [OF l] by simp
    have base: "next_timestamp self - frame_samples + frame_samples = next_timestamp self"
      by (simp add: next_timestamp_def)
    have "frame_pts (fst (track_run b64decode self (c # cs)))
        = Some (next_timestamp self)
          # map (\<lambda>k. Some (next_timestamp self + k * frame_samples)) [1..<Suc (recv_count cs)]"
      by (simp add: run p ih)
    also have "\<dots> = map (\<lambda>k. Some (next_timestamp self - frame_samples + k * frame_samples))
                        [1..<Suc (Suc (recv_count cs))]"
      by (subst map_upt_from_one) (simp add: next_timestamp_def)
    finally have pts_eq: "frame_pts (fst (track_run b64decode self (c # cs)))
        = map (\<lambda>k. Some (next_timestamp self - frame_samples + k * frame_samples))
              [1..<Suc (Suc (recv_count cs))]" .
    have len_eq: "length (fst (track_run b64decode self (c # cs))) = Suc (recv_count cs)"
      by (simp add: run len)
    have rc: "recv_count (c # cs) = Suc (recv_count cs)"
      by (simp add: Recv)
    show ?thesis
      by (simp only: rc pts_eq len_eq)
  next
    case (Enqueue s)
    obtain self' where e: "enqueue_audio b64decode self s = Inr self'"
      using enqueue_audio_returns by blast
    from enqueue_audio_fields [OF e] Cons.prems
    have l: "readyState self' = Live" and n: "next_timestamp self' = next_timestamp self"
      by (simp_all add: next_timestamp_def)
    show ?thesis
      using Cons.IH [OF l] by (simp add: Enqueue e n)
  next
    case Flush
    have l: "readyState (flush_audio self) = Live"
      using Cons.prems by (simp add: flush_audio_def)
    have n: "next_timestamp (flush_audio self) = next_timestamp self"
      by (simp add: next_timestamp_def flush_audio_def)
    show ?thesis
      using Cons.IH [OF l] by (simp add: Flush n)
  qed
qed

lemma base64_AQI: "base64_b64decode ''AQI='' = Inr [1, 2]"
  by (simp add: base64_b64decode_def table_a2b_base64_def)

lemma base64_A: "base64_b64decode ''A'' = Inl binascii_Error"
  by (simp add: base64_b64decode_def table_a2b_base64_def)

lemma base64_AQ: "base64_b64decode ''AQ=='' = Inr [1]"
  by (simp add: base64_b64decode_def table_a2b_base64_def)








section \<open>The claims about the track\<close>

text \<open>
  C1 (timestamp cadence), as the code has it. On a live track that has not yet served a
  \<open>recv\<close>, every \<open>recv\<close> of a run returns a frame, and the timestamps of the frames
  are \<open>frame_samples\<close>, \<open>2 * frame_samples\<close>, ..., \<open>N * frame_samples\<close> for the \<open>N\<close>
  calls: each call advances the timestamp by exactly \<open>frame_samples\<close>, whatever was
  written to or flushed from the FIFO in between, and whatever timestamp the FIFO put on
  the frame it handed out. The first frame carries \<open>frame_samples\<close>, since \<open>recv\<close> adds
  to \<open>_timestamp\<close> before it stamps the frame.
\<close>

theorem recv_timestamps:
  "readyState self = Live \<Longrightarrow> start self = None \<Longrightarrow>
   frame_pts (fst (track_run b64decode self calls))
     = map (\<lambda>k. Some (k * frame_samples)) [1..<Suc (recv_count calls)]
   \<and> length (fst (track_run b64decode self calls)) = recv_count calls"
proof -
  assume live: "readyState self = Live" and fresh: "start self = None"
  have "next_timestamp self - frame_samples = 0"
    using fresh by (simp add: next_timestamp_def)
  with track_run_pts [OF live, of b64decode calls] show ?thesis
    by simp
qed

theorem recv_timestamps_witness:
  "readyState BotAudioTrack_init = Live \<and> start BotAudioTrack_init = None
   \<and> frame_pts (fst (track_run base64_b64decode BotAudioTrack_init
        [Recv 0, Enqueue ''AQI='', Recv (1 / 50), Flush, Recv (1 / 25)]))
      = [Some 480, Some 960, Some 1440]"
proof -
  let ?calls = "[Recv 0, Enqueue ''AQI='', Recv (1 / 50), Flush, Recv (1 / 25)]"
  have live: "readyState BotAudioTrack_init = Live" and fresh: "start BotAudioTrack_init = None"
    by (simp_all add: BotAudioTrack_init_def)
  have n: "recv_count ?calls = 3"
    by simp
  have "[1..<Suc 3] = [1, 2, 3]"
    by (simp add: upt_conv_Cons)
  then have "map (\<lambda>k. Some (k * frame_samples)) [1..<Suc (recv_count ?calls)]
      = [Some 480, Some 960, Some 1440]"
    by (simp only: n) (simp add: frame_samples_def)
  with recv_timestamps [OF live fresh, of base64_b64decode ?calls] live fresh
  show ?thesis
    by (simp only:)
qed

text \<open>The first frame of a fresh track does not carry the timestamp 0: two calls give
  \<open>frame_samples\<close> and \<open>2 * frame_samples\<close>, not 0 and \<open>frame_samples\<close>.\<close>

theorem recv_first_timestamp:
  "readyState BotAudioTrack_init = Live
   \<and> frame_pts (fst (track_run base64_b64decode BotAudioTrack_init [Recv 0, Recv (1 / 50)]))
       = [Some frame_samples, Some (2 * frame_samples)]
   \<and> frame_pts (fst (track_run base64_b64decode BotAudioTrack_init [Recv 0, Recv (1 / 50)]))
       \<noteq> [Some 0, Some frame_samples]"
proof -
  let ?calls = "[Recv 0, Recv (1 / 50)]"
  have live: "readyState BotAudioTrack_init = Live"
    by (simp add: BotAudioTrack_init_def)
  have nxt: "next_timestamp BotAudioTrack_init - frame_samples = 0"
    by (simp add: next_timestamp_def BotAudioTrack_init_def)
  have n: "recv_count ?calls = 2"
    by simp
  have "[1..<Suc 2] = [1, 2]"
    by (simp add: upt_conv_Cons)
  then have "map (\<lambda>k. Some (next_timestamp BotAudioTrack_init - frame_samples + k * frame_samples))
                 [1..<Suc (recv_count ?calls)]
      = [Some frame_samples, Some (2 * frame_samples)]"
    by (simp only: n nxt) simp
  with track_run_pts [OF live, of base64_b64decode ?calls]
  have eq: "frame_pts (fst (track_run base64_b64decode BotAudioTrack_init ?calls))
      = [Some frame_samples, Some (2 * frame_samples)]"
    by (simp only:)
  have "[Some frame_samples, Some (2 * frame_samples)] \<noteq> [Some 0, Some frame_samples]"
    by (simp add: frame_samples_def)
  with eq live show ?thesis
    by (simp only: simp_thms)
qed




text \<open>
  C7 (underrun). A \<open>recv\<close> on a live track whose FIFO holds no samples returns a frame
  (the model of \<open>recv\<close> is a total function; the only wait in the source is the bounded
  sleep until the target time): \<open>frame_samples\<close> samples, all zero, at the configured
  sample rate and in the configured layout. The FIFO is left as it was.
\<close>

theorem recv_underrun:
  "readyState self = Live \<Longrightarrow> buffered (audio_fifo self) = [] \<Longrightarrow>
   fst (recv now self)
     = Inr \<lparr>layout = (if channels = 1 then Mono else Stereo),
            plane = replicate frame_samples 0,
            sample_rate = sample_rate_cfg,
            pts = Some (next_timestamp self)\<rparr>
   \<and> length (replicate frame_samples (0 :: sample)) = frame_samples
   \<and> (\<forall>x \<in> set (replicate frame_samples (0 :: sample)). x = 0)
   \<and> audio_fifo (snd (recv now self)) = audio_fifo self"
proof -
  assume live: "readyState self = Live" and empty: "buffered (audio_fifo self) = []"
  have rd: "AudioFifo_read (audio_fifo self) frame_samples = (None, audio_fifo self)"
    using empty by (simp add: AudioFifo_read_def split: option.split)
  show ?thesis
    using live rd by (simp add: recv_def recv_with_def Let_def next_timestamp_def)
qed

theorem recv_underrun_witness:
  "readyState BotAudioTrack_init = Live \<and> buffered (audio_fifo BotAudioTrack_init) = []
   \<and> fst (recv 0 BotAudioTrack_init)
       = Inr \<lparr>layout = Mono, plane = replicate 480 0, sample_rate = 24000, pts = Some 480\<rparr>"
proof -
  have live: "readyState BotAudioTrack_init = Live"
    and empty: "buffered (audio_fifo BotAudioTrack_init) = []"
    by (simp_all add: BotAudioTrack_init_def AudioFifo_init_def)
  have nxt: "next_timestamp BotAudioTrack_init = 480"
    by (simp add: next_timestamp_def BotAudioTrack_init_def frame_samples_def)
  from recv_underrun [OF live empty, of 0] live empty show ?thesis
    by (simp add: nxt channels_def frame_samples_def sample_rate_cfg_def)
qed

text \<open>
  C10 (writes are total and atomic). For every input string \<open>enqueue_audio\<close> returns
  and raises nothing. On a track that is not live it changes nothing. When the payload
  is malformed (the decoder refuses it, or the decoded byte count is odd so that no
  array of 16-bit samples can be made, or the sample count is not a multiple of the
  channel count), and more generally whenever the \<open>try\<close> block raises, the FIFO after
  the call is the FIFO before it. With one channel the third case does not arise.
\<close>

theorem enqueue_audio_total:
  "(\<exists>self'. enqueue_audio b64decode self s = Inr self')
   \<and> (readyState self \<noteq> Live \<longrightarrow> enqueue_audio b64decode self s = Inr self)
   \<and> (b64decode s = Inl e
        \<or> (b64decode s = Inr bs \<and> odd (length bs))
        \<or> (b64decode s = Inr bs \<and> length (int16_pairs bs) mod channels \<noteq> 0)
      \<longrightarrow> (\<exists>self'. enqueue_audio b64decode self s = Inr self'
                  \<and> audio_fifo self' = audio_fifo self))
   \<and> (enqueue_audio_try b64decode self s = Inl e'
      \<longrightarrow> (\<exists>self'. enqueue_audio b64decode self s = Inr self'
                  \<and> audio_fifo self' = audio_fifo self))"
proof (intro conjI impI)
  show "\<exists>self'. enqueue_audio b64decode self s = Inr self'"
    by (rule enqueue_audio_returns)
  show "enqueue_audio b64decode self s = Inr self" if "readyState self \<noteq> Live"
    using that by (simp add: enqueue_audio_def)
  have raised: "\<exists>self'. enqueue_audio b64decode self s = Inr self'
                  \<and> audio_fifo self' = audio_fifo self"
    if "enqueue_audio_try b64decode self s = Inl x" for x
  proof (cases "readyState self = Live")
    case True
    then show ?thesis
      using enqueue_audio_try_raises [OF that] by simp
  next
    case False
    then show ?thesis
      by (simp add: enqueue_audio_def)
  qed
  show "\<exists>self'. enqueue_audio b64decode self s = Inr self' \<and> audio_fifo self' = audio_fifo self"
    if "enqueue_audio_try b64decode self s = Inl e'"
    using raised that .
  show "\<exists>self'. enqueue_audio b64decode self s = Inr self' \<and> audio_fifo self' = audio_fifo self"
    if bad: "b64decode s = Inl e
        \<or> (b64decode s = Inr bs \<and> odd (length bs))
        \<or> (b64decode s = Inr bs \<and> length (int16_pairs bs) mod channels \<noteq> 0)"
  proof -
    from bad have "\<exists>x. enqueue_audio_try b64decode self s = Inl x"
      by (auto simp: enqueue_audio_try_def frombuffer_int16_def reshape_def channels_def)
    then show ?thesis
      using raised by blast
  qed
qed

theorem enqueue_audio_total_witness:
  "base64_b64decode ''A'' = Inl binascii_Error
   \<and> (\<exists>self'. enqueue_audio base64_b64decode BotAudioTrack_init ''A'' = Inr self'
          \<and> audio_fifo self' = audio_fifo BotAudioTrack_init)
   \<and> base64_b64decode ''AQ=='' = Inr [1] \<and> odd (length [1 :: byte])
   \<and> (\<exists>self'. enqueue_audio base64_b64decode BotAudioTrack_init ''AQ=='' = Inr self'
          \<and> audio_fifo self' = audio_fifo BotAudioTrack_init)
   \<and> readyState (stop BotAudioTrack_init) \<noteq> Live
   \<and> enqueue_audio base64_b64decode (stop BotAudioTrack_init) ''AQI=''
       = Inr (stop BotAudioTrack_init)"
proof -
  have ended: "readyState (stop BotAudioTrack_init) \<noteq> Live"
    by (simp add: BotAudioTrack_init_def stop_def)
  have odd1: "odd (length [1 :: byte])"
    by simp
  note a = enqueue_audio_total [of base64_b64decode BotAudioTrack_init "''A''" binascii_Error "[]"]
    and b = enqueue_audio_total [of base64_b64decode BotAudioTrack_init "''AQ==''" binascii_Error "[1]"]
    and c = enqueue_audio_total [of base64_b64decode "stop BotAudioTrack_init" "''AQI=''"]
  from a base64_A
  have 1: "\<exists>self'. enqueue_audio base64_b64decode BotAudioTrack_init ''A'' = Inr self'
          \<and> audio_fifo self' = audio_fifo BotAudioTrack_init"
    by blast
  from b base64_AQ odd1
  have 2: "\<exists>self'. enqueue_audio base64_b64decode BotAudioTrack_init ''AQ=='' = Inr self'
          \<and> audio_fifo self' = audio_fifo BotAudioTrack_init"
    by blast
  from c ended
  have 3: "enqueue_audio base64_b64decode (stop BotAudioTrack_init) ''AQI=''
       = Inr (stop BotAudioTrack_init)"
    by blast
  from base64_A 1 base64_AQ odd1 2 ended 3 show ?thesis
    by blast
qed

section \<open>Properties of the protocol session\<close>

lemmas ResponseMessageTypes_defs =
  sessionCreated_def sessionUpdated_def responseCreated_def responseDone_def
  responseAudioDone_def responseAudioDelta_def responseAudioTranscriptDelta_def
  rateLimitUpdated_def inputAudioBufferSpeechStarted_def inputAudioBufferSpeechStopped_def
  error_def

text \<open>What the table gives for four of the discriminators.\<close>

lemma handlers_audio_delta:
  "map_of handlers responseAudioDelta = Some handle_audio_delta"
  by (simp add: handlers_def ResponseMessageTypes_defs)

lemma handlers_speech_started:
  "map_of handlers inputAudioBufferSpeechStarted = Some handle_audio_buffer_speech_started"
  by (simp add: handlers_def ResponseMessageTypes_defs)

lemma handlers_speech_stopped:
  "map_of handlers inputAudioBufferSpeechStopped = Some handle_audio_delta"
  by (simp add: handlers_def ResponseMessageTypes_defs)

lemma handlers_error:
  "map_of handlers error = Some handle_audio_buffer_speech_stopped"
  by (simp add: handlers_def ResponseMessageTypes_defs)

text \<open>A decoded dict whose \<open>type\<close> is a string with an entry in the table: the entry's
  handler runs on the bot after the debug record, and what it raises is logged.\<close>

lemma handle_message_dispatch:
  assumes "map_of kvs ''type'' = Some (JStr t)" and "map_of handlers t = Some h"
  shows "handle_message_try b64decode self (Inr (JObj kvs))
           = h b64decode (log_bot DEBUG ''Received message of type'' self) (JObj kvs)"
  using assms by (simp add: handle_message_try_def dict_get_def handlers_get_def)

lemma handle_message_speech_started:
  assumes "map_of kvs ''type'' = Some (JStr inputAudioBufferSpeechStarted)"
  shows "handle_message b64decode self (Inr (JObj kvs))
           = (log_bot INFO ''Speech Started'' (log_bot DEBUG ''Received message of type'' self))
               \<lparr>audio_track := flush_audio (audio_track self)\<rparr>"
  by (simp add: handle_message_def handle_message_dispatch [OF assms handlers_speech_started]
      handle_audio_buffer_speech_started_def log_bot_def)

lemma handle_message_error:
  assumes "map_of kvs ''type'' = Some (JStr error)"
  shows "handle_message b64decode self (Inr (JObj kvs))
           = log_bot INFO ''Speech Stopped'' (log_bot DEBUG ''Received message of type'' self)"
  by (simp add: handle_message_def handle_message_dispatch [OF assms handlers_error]
      handle_audio_buffer_speech_stopped_def)

text \<open>An envelope with the discriminator \<open>error\<close> leaves the track and the chunk count
  as they were; it adds two records to the log, none of them at the level of an error.\<close>

lemma handle_message_error_only_logs:
  assumes "map_of kvs ''type'' = Some (JStr error)"
  shows "audio_track (handle_message b64decode self (Inr (JObj kvs))) = audio_track self
         \<and> chunk_number (handle_message b64decode self (Inr (JObj kvs))) = chunk_number self
         \<and> bot_logged (handle_message b64decode self (Inr (JObj kvs)))
             = bot_logged self @ [(DEBUG, ''Received message of type''), (INFO, ''Speech Stopped'')]"
  by (simp add: handle_message_error [OF assms] log_bot_def)

text \<open>Both discriminators wired to \<open>_handle_audio_delta\<close> hand a non-empty string under
  \<open>delta\<close> to \<open>enqueue_audio\<close>.\<close>

lemma handle_message_delta:
  assumes ty: "map_of kvs ''type'' = Some (JStr t)"
    and h: "map_of handlers t = Some handle_audio_delta"
    and d: "map_of kvs ''delta'' = Some (JStr s)" and ne: "s \<noteq> []"
    and enq: "enqueue_audio b64decode (audio_track self) s = Inr track"
  shows "handle_message b64decode self (Inr (JObj kvs))
           = (log_bot DEBUG ''Received message of type'' self)\<lparr>audio_track := track\<rparr>"
  using d ne enq
  by (simp add: handle_message_def handle_message_dispatch [OF ty h] handle_audio_delta_def
      dict_get_def truthy_def enqueue_audio_object_def log_bot_def)

lemma int16_pairs_1_2: "int16_pairs [1, 2] = [513]"
  by simp

section \<open>The claims about the protocol session\<close>

text \<open>
  C2 (each discriminator has its own handler). The table of \<open>_handle_message\<close> wires
  \<open>input_audio_buffer.speech_stopped\<close> to \<open>_handle_audio_delta\<close>. On a bot with a live
  track and an empty FIFO, the envelope
  \<open>{"type": "input_audio_buffer.speech_stopped", "delta": "AQI="}\<close> is therefore not
  informational: the two bytes of its \<open>delta\<close> are decoded and the sample \<open>0x0201\<close> is
  written to the FIFO.
\<close>

theorem speech_stopped_writes_audio:
  "buffered (audio_fifo (audio_track OpenBot_init)) = []
   \<and> buffered (audio_fifo (audio_track
        (handle_message base64_b64decode OpenBot_init
           (Inr (JObj [(''type'', JStr ''input_audio_buffer.speech_stopped''),
                       (''delta'', JStr ''AQI='')])))))
     = [513]"
proof -
  let ?kvs = "[(''type'', JStr ''input_audio_buffer.speech_stopped''), (''delta'', JStr ''AQI='')]"
  have ty: "map_of ?kvs ''type'' = Some (JStr inputAudioBufferSpeechStopped)"
    by (simp add: inputAudioBufferSpeechStopped_def)
  have d: "map_of ?kvs ''delta'' = Some (JStr ''AQI='')"
    by simp
  have live: "readyState (audio_track OpenBot_init) = Live"
    and tmpl: "template (audio_fifo (audio_track OpenBot_init)) = None
                \<or> template (audio_fifo (audio_track OpenBot_init)) = Some (Mono, sample_rate_cfg)"
    and empty: "buffered (audio_fifo (audio_track OpenBot_init)) = []"
    by (simp_all add: OpenBot_init_def BotAudioTrack_init_def AudioFifo_init_def)
  have ev: "even (length [1 :: byte, 2])"
    by simp
  from enqueue_audio_valid [where ?b64decode = base64_b64decode and s = "''AQI=''" and bs = "[1, 2]",
      OF live base64_AQI ev tmpl]
  obtain track where enq: "enqueue_audio base64_b64decode (audio_track OpenBot_init) ''AQI='' = Inr track"
    and buf: "buffered (audio_fifo track) = buffered (audio_fifo (audio_track OpenBot_init)) @ int16_pairs [1, 2]"
    by auto
  have "handle_message base64_b64decode OpenBot_init (Inr (JObj ?kvs))
      = (log_bot DEBUG ''Received message of type'' OpenBot_init)\<lparr>audio_track := track\<rparr>"
    by (rule handle_message_delta [OF ty handlers_speech_stopped d _ enq]) simp
  then show ?thesis
    by (simp add: buf empty int16_pairs_1_2)
qed

text \<open>
  C8 (barge-in ordering), as the code has it. On a bot whose track is live, whatever the
  FIFO holds: when an envelope with the discriminator
  \<open>input_audio_buffer.speech_started\<close> is handled and then an envelope with the
  discriminator \<open>response.audio.delta\<close> whose \<open>delta\<close> is valid audio (a non-empty
  string that the decoder accepts, with an even number of bytes), the FIFO holds the
  samples of the second envelope, and nothing else, after both. The flush of the first
  is applied before the write of the second: after the first envelope alone the FIFO is
  a new, empty one. The track has to be live: \<open>enqueue_audio\<close> returns at once on a
  track that was stopped.
\<close>

theorem barge_in_ordering:
  assumes "readyState (audio_track self) = Live"
    and "map_of e1 ''type'' = Some (JStr inputAudioBufferSpeechStarted)"
    and "map_of e2 ''type'' = Some (JStr responseAudioDelta)"
    and "map_of e2 ''delta'' = Some (JStr s)" and "s \<noteq> []"
    and "b64decode s = Inr bs" and "even (length bs)"
  shows "buffered (audio_fifo (audio_track
           (listen b64decode self [Inr (JObj e1), Inr (JObj e2)]))) = int16_pairs bs
         \<and> audio_fifo (audio_track (handle_message b64decode self (Inr (JObj e1))))
             = AudioFifo_init"
proof -
  let ?self1 = "handle_message b64decode self (Inr (JObj e1))"
  have s1: "?self1 = (log_bot INFO ''Speech Started'' (log_bot DEBUG ''Received message of type'' self))
               \<lparr>audio_track := flush_audio (audio_track self)\<rparr>"
    using assms(2) by (rule handle_message_speech_started)
  have track1: "audio_track ?self1 = flush_audio (audio_track self)"
    by (simp add: s1)
  have live1: "readyState (audio_track ?self1) = Live"
    using assms(1) by (simp add: track1 flush_audio_def)
  have fifo1: "audio_fifo (audio_track ?self1) = AudioFifo_init"
    by (simp add: track1 flush_audio_def)
  have tmpl1: "template (audio_fifo (audio_track ?self1)) = None
                \<or> template (audio_fifo (audio_track ?self1)) = Some (Mono, sample_rate_cfg)"
    by (simp add: fifo1 AudioFifo_init_def)
  from enqueue_audio_valid [where ?b64decode = b64decode and s = s and bs = bs,
      OF live1 assms(6) assms(7) tmpl1]
  obtain track where enq: "enqueue_audio b64decode (audio_track ?self1) s = Inr track"
    and buf: "buffered (audio_fifo track) = buffered (audio_fifo (audio_track ?self1)) @ int16_pairs bs"
    by auto
  have s2: "handle_message b64decode ?self1 (Inr (JObj e2))
      = (log_bot DEBUG ''Received message of type'' ?self1)\<lparr>audio_track := track\<rparr>"
    by (rule handle_message_delta [OF assms(3) handlers_audio_delta assms(4) assms(5) enq])
  have "listen b64decode self [Inr (JObj e1), Inr (JObj e2)]
      = handle_message b64decode ?self1 (Inr (JObj e2))"
    by simp
  then have "buffered (audio_fifo (audio_track (listen b64decode self [Inr (JObj e1), Inr (JObj e2)])))
      = buffered (audio_fifo track)"
    by (simp only: s2) simp
  also have "\<dots> = int16_pairs bs"
    by (simp add: buf fifo1 AudioFifo_init_def)
  finally show ?thesis
    using fifo1 by simp
qed

theorem barge_in_ordering_witness:
  "readyState (audio_track (OpenBot_init\<lparr>audio_track := BotAudioTrack_init
       \<lparr>audio_fifo := \<lparr>template = Some (Mono, 24000), buffered = [7, 7], samples_read = 0\<rparr>\<rparr>\<rparr>))
     = Live
   \<and> base64_b64decode ''AQI='' = Inr [1, 2]
   \<and> buffered (audio_fifo (audio_track
        (listen base64_b64decode
           (OpenBot_init\<lparr>audio_track := BotAudioTrack_init
              \<lparr>audio_fifo := \<lparr>template = Some (Mono, 24000), buffered = [7, 7], samples_read = 0\<rparr>\<rparr>\<rparr>)
           [Inr (JObj [(''type'', JStr ''input_audio_buffer.speech_started'')]),
            Inr (JObj [(''type'', JStr ''response.audio.delta''), (''delta'', JStr ''AQI='')])])))
     = [513]"
proof -
  let ?bot = "OpenBot_init\<lparr>audio_track := BotAudioTrack_init
       \<lparr>audio_fifo := \<lparr>template = Some (Mono, 24000), buffered = [7, 7], samples_read = 0\<rparr>\<rparr>\<rparr>"
  let ?e1 = "[(''type'', JStr ''input_audio_buffer.speech_started'')]"
  let ?e2 = "[(''type'', JStr ''response.audio.delta''), (''delta'', JStr ''AQI='')]"
  have live: "readyState (audio_track ?bot) = Live"
    by (simp add: BotAudioTrack_init_def)
  have t1: "map_of ?e1 ''type'' = Some (JStr inputAudioBufferSpeechStarted)"
    by (simp add: inputAudioBufferSpeechStarted_def)
  have t2: "map_of ?e2 ''type'' = Some (JStr responseAudioDelta)"
    by (simp add: responseAudioDelta_def)
  have d2: "map_of ?e2 ''delta'' = Some (JStr ''AQI='')"
    by simp
  have ne: "''AQI='' \<noteq> []"
    by simp
  have ev: "even (length [1 :: byte, 2])"
    by simp
  from barge_in_ordering [where ?b64decode = base64_b64decode and s = "''AQI=''" and bs = "[1, 2]",
      OF live t1 t2 d2 ne base64_AQI ev]
  have "buffered (audio_fifo (audio_track
          (listen base64_b64decode ?bot [Inr (JObj ?e1), Inr (JObj ?e2)]))) = int16_pairs [1, 2]"
    by (rule conjunct1)
  then have "buffered (audio_fifo (audio_track
          (listen base64_b64decode ?bot [Inr (JObj ?e1), Inr (JObj ?e2)]))) = [513]"
    by (simp only: int16_pairs_1_2)
  with live base64_AQI show ?thesis
    by (simp only: simp_thms)
qed

text \<open>
  After \<open>close()\<close> the listening loop still handles what arrives. On the closed bot the
  first envelope flushes the FIFO and the second one's audio, the sample \<open>0x0201\<close>, is
  not written: the FIFO is empty after both.
\<close>

theorem barge_in_stopped_track:
  "readyState (audio_track (close OpenBot_init)) = Ended
   \<and> base64_b64decode ''AQI='' = Inr [1, 2]
   \<and> int16_pairs [1, 2] = [513]
   \<and> buffered (audio_fifo (audio_track
        (listen base64_b64decode (close OpenBot_init)
           [Inr (JObj [(''type'', JStr ''input_audio_buffer.speech_started'')]),
            Inr (JObj [(''type'', JStr ''response.audio.delta''), (''delta'', JStr ''AQI='')])])))
     = []"
proof -
  let ?bot = "close OpenBot_init"
  let ?e1 = "[(''type'', JStr ''input_audio_buffer.speech_started'')]"
  let ?e2 = "[(''type'', JStr ''response.audio.delta''), (''delta'', JStr ''AQI='')]"
  let ?bot1 = "handle_message base64_b64decode ?bot (Inr (JObj ?e1))"
  have ended: "readyState (audio_track ?bot) = Ended"
    by (simp add: close_def OpenBot_init_def BotAudioTrack_init_def stop_def)
  have t1: "map_of ?e1 ''type'' = Some (JStr inputAudioBufferSpeechStarted)"
    by (simp add: inputAudioBufferSpeechStarted_def)
  have t2: "map_of ?e2 ''type'' = Some (JStr responseAudioDelta)"
    by (simp add: responseAudioDelta_def)
  have d2: "map_of ?e2 ''delta'' = Some (JStr ''AQI='')"
    by simp
  have ne: "''AQI='' \<noteq> []"
    by simp
  have track1: "audio_track ?bot1 = flush_audio (audio_track ?bot)"
    by (simp add: handle_message_speech_started [OF t1])
  have ended1: "readyState (audio_track ?bot1) \<noteq> Live"
    using ended by (simp add: track1 flush_audio_def)
  have enq: "enqueue_audio base64_b64decode (audio_track ?bot1) ''AQI='' = Inr (audio_track ?bot1)"
    using ended1 by (simp add: enqueue_audio_def)
  have "listen base64_b64decode ?bot [Inr (JObj ?e1), Inr (JObj ?e2)]
      = handle_message base64_b64decode ?bot1 (Inr (JObj ?e2))"
    by simp
  also have "\<dots> = (log_bot DEBUG ''Received message of type'' ?bot1)
                      \<lparr>audio_track := audio_track ?bot1\<rparr>"
    by (rule handle_message_delta [OF t2 handlers_audio_delta d2 ne enq])
  finally have "buffered (audio_fifo (audio_track
        (listen base64_b64decode ?bot [Inr (JObj ?e1), Inr (JObj ?e2)])))
      = buffered (audio_fifo (flush_audio (audio_track ?bot)))"
    by (simp only: track1) simp
  also have "\<dots> = []"
    by (simp add: flush_audio_def AudioFifo_init_def)
  finally show ?thesis
    using ended base64_AQI int16_pairs_1_2 by (simp only: simp_thms)
qed

end
